theory Spec2Isabelle
  imports Complex_Main "HOL-Library.Char_ord" "HOL-Library.List_Lexorder" "HOL-Library.Multiset"
begin

section \<open>The incident table\<close>

text \<open>
  The analyzer of \<^verbatim>\<open>risk_analyzer.py\<close> works on a pandas data frame read from a CSV file.
  A row of that frame is a record of the six columns the code reads. Python floats are
  modelled as exact rationals; a float column that can hold NaN is a \<open>rat option\<close> with
  \<open>None\<close> for NaN. The root cause may be missing in the data, the other columns are
  present in every row.
\<close>

record incident =
  incident_id :: string
  category :: string
  severity :: string
  resolution_time_hours :: rat
  recurrence :: string
  root_cause :: "string option"

datatype error = AttributeError | TypeError | ValueError | KeyError

section \<open>Numeric helpers of pandas and numpy\<close>

text \<open>
  \<^verbatim>\<open>DataFrame.round(d)\<close> is numpy's \<^verbatim>\<open>around\<close>: scale by \<open>10 ^ d\<close>, round to the nearest
  integer with ties going to the even one, scale back.
\<close>

definition rint :: "rat \<Rightarrow> int" where
  "rint x =
     (let f = \<lfloor>x\<rfloor>; d = x - of_int f
      in if d < 1 / 2 then f else if 1 / 2 < d then f + 1 else if even f then f else f + 1)"

definition round_dp :: "nat \<Rightarrow> rat \<Rightarrow> rat" where
  "round_dp d x = of_int (rint (x * 10 ^ d)) / 10 ^ d"

text \<open>The mean of a group's column; every group of a \<^verbatim>\<open>groupby\<close> has at least one row.\<close>

definition mean :: "rat list \<Rightarrow> rat" where
  "mean xs = sum_list xs / of_nat (length xs)"

text \<open>\<^verbatim>\<open>Series.mean()\<close> on a column with NaN skips them; with nothing left it is NaN.\<close>

definition mean_skipna :: "rat option list \<Rightarrow> rat option" where
  "mean_skipna col =
     (let vs = List.map_filter id col in if vs = [] then None else Some (mean vs))"


text \<open>
  \<^verbatim>\<open>Series.quantile(q)\<close>: \<open>q\<close> outside \<open>[0, 1]\<close> raises \<^verbatim>\<open>ValueError\<close>; NaN entries are
  dropped; of no value at all the quantile is NaN; otherwise the values are sorted and
  the result is interpolated linearly between the two order statistics around the
  position \<open>q * (n - 1)\<close>.
\<close>

definition quantile :: "rat option list \<Rightarrow> rat \<Rightarrow> error + rat option" where
  "quantile col q =
     (if q < 0 \<or> 1 < q then Inl ValueError
      else
        let vals = sort (List.map_filter id col); n = length vals
        in if n = 0 then Inr None
           else
             let h = q * of_nat (n - 1);
                 lo = nat \<lfloor>h\<rfloor>;
                 hi = min (lo + 1) (n - 1);
                 g = h - of_nat lo
             in Inr (Some (vals ! lo + (vals ! hi - vals ! lo) * g)))"

text \<open>An elementwise \<^verbatim>\<open>>=\<close> of floats: false as soon as one side is NaN.\<close>

definition ge_nan :: "rat option \<Rightarrow> rat option \<Rightarrow> bool" where
  "ge_nan a b = (case (a, b) of (Some x, Some y) \<Rightarrow> y \<le> x | _ \<Rightarrow> False)"

text \<open>
  \<^verbatim>\<open>groupby(key)\<close> has one group for each distinct key, the groups in ascending order of
  the key, the rows of a group in the order of the table.
\<close>

definition group_keys :: "('a \<Rightarrow> string) \<Rightarrow> 'a list \<Rightarrow> string list" where
  "group_keys key rows = sort (remdups (map key rows))"

definition group_rows :: "('a \<Rightarrow> string) \<Rightarrow> string \<Rightarrow> 'a list \<Rightarrow> 'a list" where
  "group_rows key k rows = filter (\<lambda>r. key r = k) rows"

section \<open>Category metrics and the risk score\<close>

definition severity_weights :: "string \<rightharpoonup> rat" where
  "severity_weights =
     [''Critical'' \<mapsto> 4, ''High'' \<mapsto> 3, ''Medium'' \<mapsto> 2, ''Low'' \<mapsto> 1]"

record category_row =
  Category :: string
  Incident_Count :: nat
  Avg_Severity_Score :: "rat option"
  Avg_Resolution_Hours :: rat
  Recurring_Incidents :: nat
  Recurrence_Rate :: rat
  Risk_Score :: "rat option"

text \<open>
  One row of \<^verbatim>\<open>category_analysis\<close>: the four aggregates of the group (the two float
  columns rounded to 2 places), then the recurrence rate, then the risk score. A severity
  that is no key of \<open>severity_weights\<close> maps to NaN and is skipped by the mean.
\<close>

definition category_metrics :: "string \<Rightarrow> incident list \<Rightarrow> category_row" where
  "category_metrics c g =
     (let count = length g;
          avg_sev = map_option (round_dp 2) (mean_skipna (map (\<lambda>r. severity_weights (severity r)) g));
          avg_res = round_dp 2 (mean (map resolution_time_hours g));
          recurring = length (filter (\<lambda>r. recurrence r = ''Yes'') g);
          rate = round_dp 1 (of_nat recurring / of_nat count * 100);
          score = map_option
            (\<lambda>s. round_dp 2 (of_nat count * s * (1 + rate / 100) + avg_res / 10)) avg_sev
      in \<lparr>Category = c, Incident_Count = count, Avg_Severity_Score = avg_sev,
          Avg_Resolution_Hours = avg_res, Recurring_Incidents = recurring,
          Recurrence_Rate = rate, Risk_Score = score\<rparr>)"

definition category_analysis :: "incident list \<Rightarrow> category_row list" where
  "category_analysis table =
     map (\<lambda>c. category_metrics c (group_rows category c table)) (group_keys category table)"

section \<open>Sorting a frame by a column\<close>

text \<open>
  \<^verbatim>\<open>sort_values(col, ascending=False)\<close> is called without a \<^verbatim>\<open>kind\<close>, so it sorts with
  numpy's \<^verbatim>\<open>argsort(kind='quicksort')\<close>, which is library code and is documented as not
  stable. The functions that sort take that \<open>argsort\<close> as a parameter; what the library
  promises of it is \<open>argsort_contract\<close>: the result is a permutation of the positions that
  puts the keys in ascending order. Nothing is promised about the order of equal keys.
  The sort that numpy runs is modelled further down as \<open>npy_aquicksort\<close>.
\<close>

definition argsort_contract :: "(rat list \<Rightarrow> nat list) \<Rightarrow> bool" where
  "argsort_contract argsort \<longleftrightarrow>
     (\<forall>xs. mset (argsort xs) = mset [0..<length xs] \<and> sorted (map (\<lambda>i. xs ! i) (argsort xs)))"

text \<open>
  pandas' \<^verbatim>\<open>nargsort\<close> for a descending sort with NaN last: the positions of the values
  that are not NaN are reversed, sorted ascending by \<open>argsort\<close> and reversed again; the
  positions of the NaN follow.
\<close>

definition nargsort_desc :: "(rat list \<Rightarrow> nat list) \<Rightarrow> rat option list \<Rightarrow> nat list" where
  "nargsort_desc argsort items =
     (let idx = [0..<length items];
          non_nans = rev (List.map_filter id items);
          non_nan_idx = rev (filter (\<lambda>i. items ! i \<noteq> None) idx);
          nan_idx = filter (\<lambda>i. items ! i = None) idx;
          indexer = rev (map (\<lambda>j. non_nan_idx ! j) (argsort non_nans))
      in indexer @ nan_idx)"

definition sort_values_desc ::
  "(rat list \<Rightarrow> nat list) \<Rightarrow> ('a \<Rightarrow> rat option) \<Rightarrow> 'a list \<Rightarrow> 'a list" where
  "sort_values_desc argsort col rows =
     map (\<lambda>i. rows ! i) (nargsort_desc argsort (map col rows))"

text \<open>A sort that meets the contract and keeps equal keys in order.\<close>

definition argsort_stable :: "rat list \<Rightarrow> nat list" where
  "argsort_stable xs = map snd (sort_key fst (zip xs [0..<length xs]))"

section \<open>numpy's quicksort for argsort\<close>

text \<open>
  The sort that \<^verbatim>\<open>argsort(kind='quicksort')\<close> runs on an array of doubles is numpy's
  \<^verbatim>\<open>aquicksort_\<close> (\<^verbatim>\<open>npysort/quicksort.cpp\<close>, the scalar code path): it sorts an array
  \<open>a\<close> of positions by the values \<open>v\<close> they point at. A range of more than 17 positions
  is partitioned around the median of its first, middle and last value, the larger part
  is pushed on a stack and the smaller part is partitioned on; a range of at most 17
  positions is sorted by insertion; a range popped from the stack after the depth limit
  of twice the position of the highest bit of the length is used up is sorted by
  \<^verbatim>\<open>aheapsort_\<close>. The pointers \<^verbatim>\<open>pl, pr, pm, pi, pj\<close> are indices here (\<open>p_i\<close> and \<open>p_j\<close>
  for the two scanning ones), and the keys are compared by \<open><\<close>, as for doubles that are
  not NaN.

  The two scans of the partition have no bound check in the C code: the median of three
  leaves a value at each end of the range that stops them. The model stops them at the
  ends of the array as well. The stack of ranges is the recursion of \<open>aquicksort_range\<close>,
  on a fuel of one unit for each level of partition; the flag tells a range popped from
  the stack, which is the only place where the depth limit is read.
\<close>

definition SMALL_QUICKSORT :: nat where
  "SMALL_QUICKSORT = 16"

fun npy_get_msb :: "nat \<Rightarrow> nat" where
  "npy_get_msb n = (if n div 2 = 0 then 0 else Suc (npy_get_msb (n div 2)))"

definition INTP_SWAP :: "nat list \<Rightarrow> nat \<Rightarrow> nat \<Rightarrow> nat list" where
  "INTP_SWAP a i j = a[i := a ! j, j := a ! i]"

function scan_up :: "rat list \<Rightarrow> rat \<Rightarrow> nat list \<Rightarrow> nat \<Rightarrow> nat" where
  "scan_up v vp a p_i =
     (if p_i + 1 < length a \<and> v ! (a ! (p_i + 1)) < vp then scan_up v vp a (p_i + 1) else p_i + 1)"
  by pat_completeness auto
termination
  by (relation "measure (\<lambda>(v, vp, a, p_i). length a - p_i)") auto

declare scan_up.simps [simp del]

function scan_down :: "rat list \<Rightarrow> rat \<Rightarrow> nat list \<Rightarrow> nat \<Rightarrow> nat" where
  "scan_down v vp a p_j =
     (if 0 < p_j \<and> vp < v ! (a ! (p_j - 1)) then scan_down v vp a (p_j - 1) else p_j - 1)"
  by pat_completeness auto
termination
  by (relation "measure (\<lambda>(v, vp, a, p_j). p_j)") auto

declare scan_down.simps [simp del]

function partition_loop ::
  "rat list \<Rightarrow> rat \<Rightarrow> nat list \<Rightarrow> nat \<Rightarrow> nat \<Rightarrow> nat list \<times> nat" where
  "partition_loop v vp a p_i p_j =
     (let p_i' = scan_up v vp a p_i; p_j' = scan_down v vp a p_j
      in if p_j' \<le> p_i' then (a, p_i') else partition_loop v vp (INTP_SWAP a p_i' p_j') p_i' p_j')"
  by pat_completeness auto
termination
proof (relation "measure (\<lambda>(v, vp, a, p_i, p_j). p_j - p_i)")
  show "wf (measure (\<lambda>(v, vp, a, p_i, p_j). p_j - p_i))" by simp
next
  fix v vp a p_i p_j x xa
  assume x: "x = scan_up v vp a p_i" and xa: "xa = scan_down v vp a p_j" and lt: "\<not> xa \<le> x"
  have up: "i < scan_up w q b i" for w q b i
  proof (induction w q b i rule: scan_up.induct)
    case (1 w q b i)
    show ?case
    proof (cases "i + 1 < length b \<and> w ! (b ! (i + 1)) < q")
      case True
      then have "i + 1 < scan_up w q b (i + 1)" by (rule "1.IH")
      then show ?thesis by (subst scan_up.simps) (simp add: True)
    next
      case False
      then show ?thesis by (subst scan_up.simps) auto
    qed
  qed
  have down: "scan_down w q b j \<le> j" for w q b j
  proof (induction w q b j rule: scan_down.induct)
    case (1 w q b j)
    show ?case
    proof (cases "0 < j \<and> q < w ! (b ! (j - 1))")
      case True
      then have "scan_down w q b (j - 1) \<le> j - 1" by (rule "1.IH")
      then have "scan_down w q b (j - 1) \<le> j" by simp
      then show ?thesis by (subst scan_down.simps) (simp add: True)
    next
      case False
      then show ?thesis by (subst scan_down.simps) auto
    qed
  qed
  show "((v, vp, INTP_SWAP a x xa, x, xa), v, vp, a, p_i, p_j)
      \<in> measure (\<lambda>(v, vp, a, p_i, p_j). p_j - p_i)"
    using up [of p_i v vp a] down [of v vp a p_j] lt by (simp add: x xa)
qed

declare partition_loop.simps [simp del]

definition partition :: "rat list \<Rightarrow> nat list \<Rightarrow> nat \<Rightarrow> nat \<Rightarrow> nat list \<times> nat" where
  "partition v a pl pr =
     (let pm = pl + (pr - pl) div 2;
          a1 = (if v ! (a ! pm) < v ! (a ! pl) then INTP_SWAP a pm pl else a);
          a2 = (if v ! (a1 ! pr) < v ! (a1 ! pm) then INTP_SWAP a1 pr pm else a1);
          a3 = (if v ! (a2 ! pm) < v ! (a2 ! pl) then INTP_SWAP a2 pm pl else a2);
          vp = v ! (a3 ! pm);
          a4 = INTP_SWAP a3 pm (pr - 1);
          (a5, p_i) = partition_loop v vp a4 pl (pr - 1)
      in (INTP_SWAP a5 p_i (pr - 1), p_i))"

function shift_up :: "rat list \<Rightarrow> rat \<Rightarrow> nat list \<Rightarrow> nat \<Rightarrow> nat \<Rightarrow> nat list \<times> nat" where
  "shift_up v vp a pl p_j =
     (if pl < p_j \<and> vp < v ! (a ! (p_j - 1))
      then shift_up v vp (a[p_j := a ! (p_j - 1)]) pl (p_j - 1) else (a, p_j))"
  by pat_completeness auto
termination
  by (relation "measure (\<lambda>(v, vp, a, pl, p_j). p_j)") auto

declare shift_up.simps [simp del]

definition insertion_sort :: "rat list \<Rightarrow> nat list \<Rightarrow> nat \<Rightarrow> nat \<Rightarrow> nat list" where
  "insertion_sort v a pl pr =
     fold (\<lambda>p_i a. let vi = a ! p_i; (a', p_j) = shift_up v (v ! vi) a pl p_i in a'[p_j := vi])
       [pl + 1..<pr + 1] a"

function sift_down ::
  "rat list \<Rightarrow> nat list \<Rightarrow> nat \<Rightarrow> nat \<Rightarrow> nat \<Rightarrow> nat \<Rightarrow> nat \<Rightarrow> nat list" where
  "sift_down v a pl tmp i j n =
     (if 0 < j \<and> j \<le> n then
        let j' = (if j < n \<and> v ! (a ! (pl + j - 1)) < v ! (a ! (pl + j)) then j + 1 else j)
        in if v ! tmp < v ! (a ! (pl + j' - 1))
           then sift_down v (a[pl + i - 1 := a ! (pl + j' - 1)]) pl tmp j' (j' + j') n
           else a[pl + i - 1 := tmp]
      else a[pl + i - 1 := tmp])"
  by pat_completeness auto
termination
  by (relation "measure (\<lambda>(v, a, pl, tmp, i, j, n). n + 1 - j)") auto

declare sift_down.simps [simp del]

definition aheapsort :: "rat list \<Rightarrow> nat list \<Rightarrow> nat \<Rightarrow> nat \<Rightarrow> nat list" where
  "aheapsort v a pl n =
     (let a1 = fold (\<lambda>l a. sift_down v a pl (a ! (pl + l - 1)) l (l + l) n)
                 (rev [1..<n div 2 + 1]) a
      in fold (\<lambda>m a. let tmp = a ! (pl + m - 1);
                         a' = a[pl + m - 1 := a ! pl]
                     in sift_down v a' pl tmp 1 2 (m - 1))
           (rev [2..<n + 1]) a1)"

fun aquicksort_range ::
  "nat \<Rightarrow> rat list \<Rightarrow> nat list \<Rightarrow> nat \<Rightarrow> nat \<Rightarrow> int \<Rightarrow> bool \<Rightarrow> nat list" where
  "aquicksort_range 0 v a pl pr cdepth popped = a"
| "aquicksort_range (Suc fuel) v a pl pr cdepth popped =
     (if popped \<and> cdepth < 0 then aheapsort v a pl (pr + 1 - pl)
      else if SMALL_QUICKSORT < pr - pl then
        (let (a', p_i) = partition v a pl pr
         in if p_i - pl < pr - p_i
            then aquicksort_range fuel v
                   (aquicksort_range fuel v a' pl (p_i - 1) (cdepth - 1) False)
                   (p_i + 1) pr (cdepth - 1) True
            else aquicksort_range fuel v
                   (aquicksort_range fuel v a' (p_i + 1) pr (cdepth - 1) False)
                   pl (p_i - 1) (cdepth - 1) True)
      else insertion_sort v a pl pr)"

definition npy_aquicksort :: "rat list \<Rightarrow> nat list" where
  "npy_aquicksort v =
     aquicksort_range (length v) v [0..<length v] 0 (length v - 1)
       (int (npy_get_msb (length v)) * 2) True"

section \<open>The analyzer and its result cache\<close>

text \<open>
  The rows of the other derived tables. The by-category resolution table is modelled
  without its \<^verbatim>\<open>Std_Dev\<close> column (a square root); the columns of the by-severity table
  carry the prefix \<open>Sev_\<close>, those of the recurrence tables their own names. After
  \<^verbatim>\<open>reindex\<close> a by-severity row may hold NaN in every column.
\<close>

record resolution_row =
  Res_Category :: string
  Avg_Hours :: rat
  Median_Hours :: rat
  Min_Hours :: rat
  Max_Hours :: rat

record severity_row =
  Severity :: string
  Sev_Avg_Hours :: "rat option"
  Sev_Median_Hours :: "rat option"
  Sev_Incident_Count :: "nat option"

record recurrence_row =
  Rec_Category :: string
  Recurring_Count :: nat
  Most_Common_Severity :: string
  Rec_Avg_Resolution_Hours :: rat

record root_cause_row =
  Root_Cause :: string
  Occurrence_Count :: nat
  Affected_Categories :: string

text \<open>
  \<^verbatim>\<open>self.risk_summary\<close> is a dictionary; each key the code stores is a field that is
  \<open>None\<close> until it is stored. (\<^verbatim>\<open>severity_distribution\<close> is read by the report only.)
\<close>

record summary =
  high_risk_categories :: "category_row list option"
  resolution_by_category :: "resolution_row list option"
  resolution_by_severity :: "severity_row list option"
  recurring_by_category :: "recurrence_row list option"
  top_recurring_root_causes :: "root_cause_row list option"

record analyzer =
  df :: "incident list option"
  risk_summary :: summary

definition init :: analyzer where
  "init = \<lparr>df = None,
           risk_summary = \<lparr>high_risk_categories = None, resolution_by_category = None,
             resolution_by_severity = None, recurring_by_category = None,
             top_recurring_root_causes = None\<rparr>\<rparr>"

text \<open>Reading the CSV file is outside the model: \<open>load_data\<close> receives the table read.\<close>

definition load_data :: "incident list \<Rightarrow> analyzer \<Rightarrow> analyzer" where
  "load_data table self = self\<lparr>df := Some table\<rparr>"

section \<open>identify\_high\_risk\_categories\<close>

definition identify_high_risk_categories ::
  "(rat list \<Rightarrow> nat list) \<Rightarrow> rat \<Rightarrow> analyzer \<Rightarrow> error + (category_row list \<times> analyzer)" where
  "identify_high_risk_categories argsort threshold_percentile self =
     (case df self of
        None \<Rightarrow> Inl AttributeError
      | Some table \<Rightarrow>
          let analysis = category_analysis table
          in case quantile (map Risk_Score analysis) (threshold_percentile / 100) of
               Inl e \<Rightarrow> Inl e
             | Inr risk_threshold \<Rightarrow>
                 let high_risk = sort_values_desc argsort Risk_Score
                       (filter (\<lambda>r. ge_nan (Risk_Score r) risk_threshold) analysis)
                 in Inr (high_risk,
                      self\<lparr>risk_summary := (risk_summary self)\<lparr>high_risk_categories := Some high_risk\<rparr>\<rparr>))"

definition default_threshold_percentile :: rat where
  "default_threshold_percentile = 75"

section \<open>calculate\_resolution\_metrics\<close>








section \<open>detect\_recurring\_issues\<close>

text \<open>
  The function returns one empty frame or a pair of frames; the two shapes are the two
  constructors of its result.
\<close>

datatype recurring_result =
  Empty_Frame
  | Frames "recurrence_row list" "root_cause_row list"

text \<open>\<^verbatim>\<open>Series.unique()\<close> keeps the first occurrence of each value.\<close>

definition unique :: "'a list \<Rightarrow> 'a list" where
  "unique xs = rev (remdups (rev xs))"

text \<open>\<^verbatim>\<open>Series.mode()\<close> gives the most frequent values, sorted.\<close>

definition mode :: "string list \<Rightarrow> string list" where
  "mode xs =
     (let top = fold max (map (count_list xs) xs) 0
      in sort (remdups (filter (\<lambda>v. count_list xs v = top) xs)))"

fun join :: "string \<Rightarrow> string list \<Rightarrow> string" where
  "join sep [] = []"
| "join sep [x] = x"
| "join sep (x # y # ys) = x @ sep @ join sep (y # ys)"

definition recurrence_metrics :: "string \<Rightarrow> incident list \<Rightarrow> recurrence_row" where
  "recurrence_metrics c g =
     \<lparr>Rec_Category = c, Recurring_Count = length g,
      Most_Common_Severity =
        (case mode (map severity g) of [] \<Rightarrow> ''N/A'' | m # _ \<Rightarrow> m),
      Rec_Avg_Resolution_Hours = round_dp 2 (mean (map resolution_time_hours g))\<rparr>"

definition root_cause_metrics :: "string \<Rightarrow> incident list \<Rightarrow> root_cause_row" where
  "root_cause_metrics c g =
     \<lparr>Root_Cause = c, Occurrence_Count = length g,
      Affected_Categories = join '', '' (unique (map category g))\<rparr>"

definition detect_recurring_issues ::
  "(rat list \<Rightarrow> nat list) \<Rightarrow> analyzer \<Rightarrow> error + (recurring_result \<times> analyzer)" where
  "detect_recurring_issues argsort self =
     (case df self of
        None \<Rightarrow> Inl TypeError
      | Some table \<Rightarrow>
          let recurring = filter (\<lambda>r. recurrence r = ''Yes'') table
          in if recurring = [] then Inr (Empty_Frame, self)
             else
               let category_recurrence =
                     sort_values_desc argsort (\<lambda>r. Some (of_nat (Recurring_Count r)))
                       (map (\<lambda>c. recurrence_metrics c (group_rows category c recurring))
                          (group_keys category recurring));
                   root_cause_analysis =
                     take 10
                       (sort_values_desc argsort (\<lambda>r. Some (of_nat (Occurrence_Count r)))
                          (map (\<lambda>c. root_cause_metrics c
                                  (filter (\<lambda>r. root_cause r = Some c) recurring))
                             (sort (remdups (List.map_filter root_cause recurring)))))
               in Inr (Frames category_recurrence root_cause_analysis,
                    self\<lparr>risk_summary := (risk_summary self)
                      \<lparr>recurring_by_category := Some category_recurrence,
                       top_recurring_root_causes := Some root_cause_analysis\<rparr>\<rparr>))"

section \<open>generate\_risk\_register\<close>

text \<open>
  A register entry. \<open>Risk_ID\<close> is the number printed in \<^verbatim>\<open>RISK-001\<close>; the description
  is kept as its one varying decision, whether it has the recurrence clause; the three
  numbers printed in fixed-point notation are kept as numbers; the review date (the
  clock) is left out.
\<close>

record register_entry =
  Risk_ID :: nat
  Reg_Category :: string
  With_Recurrence_Clause :: bool
  Risk_Level :: string
  Likelihood :: string
  Impact :: string
  Reg_Risk_Score :: "rat option"
  Reg_Incident_Count :: nat
  Reg_Avg_Resolution_Hours :: rat
  Reg_Recurrence_Rate :: rat
  Mitigation_Strategy :: string
  Status :: string

definition risk_entry :: "nat \<Rightarrow> recurrence_row list option \<Rightarrow> category_row \<Rightarrow> register_entry" where
  "risk_entry risk_id recurring row =
     (let risk_score = Risk_Score row;
          incident_count = Incident_Count row;
          recurrence_rate = Recurrence_Rate row;
          avg_resolution = Avg_Resolution_Hours row;
          (risk_level, likelihood) =
            (if ge_nan risk_score (Some 50) then (''Critical'', ''Very High'')
             else if ge_nan risk_score (Some 30) then (''High'', ''High'')
             else if ge_nan risk_score (Some 15) then (''Medium'', ''Medium'')
             else (''Low'', ''Low''));
          impact =
            (if 40 \<le> avg_resolution then ''Severe''
             else if 20 \<le> avg_resolution then ''Major''
             else if 10 \<le> avg_resolution then ''Moderate''
             else ''Minor'');
          is_recurring =
            (case recurring of
               Some rec \<Rightarrow> Category row \<in> set (map Rec_Category rec)
             | None \<Rightarrow> False);
          mitigations =
            (if 50 < recurrence_rate
             then [''Conduct root cause analysis to address systemic issues''] else []) @
            (if 30 < avg_resolution
             then [''Review and optimize incident response procedures''] else []) @
            (if 8 < incident_count
             then [''Implement preventive controls to reduce incident frequency''] else []);
          mitigation_text =
            (if mitigations \<noteq> [] then join ''; '' mitigations
             else ''Monitor trends and maintain current controls'');
          status =
            (if risk_level \<in> set [''Critical'', ''High''] then ''Active - Mitigation Required''
             else ''Active - Monitoring'')
      in \<lparr>Risk_ID = risk_id, Reg_Category = Category row,
          With_Recurrence_Clause = is_recurring, Risk_Level = risk_level,
          Likelihood = likelihood, Impact = impact, Reg_Risk_Score = risk_score,
          Reg_Incident_Count = incident_count, Reg_Avg_Resolution_Hours = avg_resolution,
          Reg_Recurrence_Rate = recurrence_rate, Mitigation_Strategy = mitigation_text,
          Status = status\<rparr>)"

text \<open>
  The loop over the high-risk rows, \<open>risk_id\<close> counting from 1. The function returns
  Python's \<^verbatim>\<open>None\<close> (here \<open>Inr None\<close>) when no high-risk table is stored; with a stored
  table of no row the frame built from the empty list has no column, and the summary
  line that reads its \<^verbatim>\<open>Risk_Level\<close> column raises \<^verbatim>\<open>KeyError\<close>.
\<close>

fun register_rows ::
  "nat \<Rightarrow> recurrence_row list option \<Rightarrow> category_row list \<Rightarrow> register_entry list" where
  "register_rows risk_id recurring [] = []"
| "register_rows risk_id recurring (row # rows) =
     risk_entry risk_id recurring row # register_rows (risk_id + 1) recurring rows"

definition generate_risk_register :: "analyzer \<Rightarrow> error + register_entry list option" where
  "generate_risk_register self =
     (case high_risk_categories (risk_summary self) of
        None \<Rightarrow> Inr None
      | Some high_risk \<Rightarrow>
          let risk_register =
                register_rows 1 (recurring_by_category (risk_summary self)) high_risk
          in if risk_register = [] then Inl KeyError else Inr (Some risk_register))"

section \<open>Example tables\<close>

definition example_incident :: "string \<Rightarrow> string \<Rightarrow> rat \<Rightarrow> string \<Rightarrow> incident" where
  "example_incident c s h r =
     \<lparr>incident_id = [], category = c, severity = s, resolution_time_hours = h,
      recurrence = r, root_cause = None\<rparr>"

text \<open>
  Category A: 10 incidents of severity High, 3 of them recurring, 12 hours each;
  category B: 2 incidents of severity Low, none recurring, 1 hour each.
\<close>

definition example_table :: "incident list" where
  "example_table =
     replicate 3 (example_incident ''A'' ''High'' 12 ''Yes'') @
     replicate 7 (example_incident ''A'' ''High'' 12 ''No'') @
     replicate 2 (example_incident ''B'' ''Low'' 1 ''No'')"

text \<open>A category with one severity outside the weight table; a table of nothing else.\<close>

definition unmapped_table :: "incident list" where
  "unmapped_table =
     [example_incident ''A'' ''High'' 10 ''No'', example_incident ''A'' ''Unknown'' 10 ''No'']"

definition unscored_table :: "incident list" where
  "unscored_table = [example_incident ''A'' ''Unknown'' 10 ''No'']"

text \<open>Two categories of equal risk score.\<close>

definition tied_table :: "incident list" where
  "tied_table = [example_incident ''A'' ''Low'' 1 ''No'', example_incident ''B'' ''Low'' 1 ''No'']"

text \<open>Eighteen categories A to R of equal risk score.\<close>

definition eighteen_tied_table :: "incident list" where
  "eighteen_tied_table =
     map (\<lambda>c. example_incident [c] ''Low'' 1 ''No'') ''ABCDEFGHIJKLMNOPQR''"

text \<open>
  Eight categories of one Low incident each, resolved in 0, 10, ..., 70 hours: their
  risk scores are 1 to 8.
\<close>

definition eight_table :: "incident list" where
  "eight_table =
     [example_incident ''C1'' ''Low'' 0 ''No'', example_incident ''C2'' ''Low'' 10 ''No'',
      example_incident ''C3'' ''Low'' 20 ''No'', example_incident ''C4'' ''Low'' 30 ''No'',
      example_incident ''C5'' ''Low'' 40 ''No'', example_incident ''C6'' ''Low'' 50 ''No'',
      example_incident ''C7'' ''Low'' 60 ''No'', example_incident ''C8'' ''Low'' 70 ''No'']"

text \<open>A high-risk row of score 55, 45 hours, 60 percent recurrence, 10 incidents.\<close>

definition example_row :: category_row where
  "example_row =
     \<lparr>Category = ''A'', Incident_Count = 10, Avg_Severity_Score = Some 3,
      Avg_Resolution_Hours = 45, Recurring_Incidents = 6, Recurrence_Rate = 60,
      Risk_Score = Some 55\<rparr>"

text \<open>An analyzer whose scoring stored that row as its only high-risk row.\<close>

definition example_state :: analyzer where
  "example_state =
     init\<lparr>risk_summary := (risk_summary init)\<lparr>high_risk_categories := Some [example_row]\<rparr>\<rparr>"

section \<open>Rounding stays between integers\<close>





section \<open>Rows of the category analysis\<close>

lemma category_analysis_row:
  assumes "row \<in> set (category_analysis table)"
  shows "\<exists>c. c \<in> set (map category table)
    \<and> row = category_metrics c (group_rows category c table)"
  using assms by (auto simp: category_analysis_def group_keys_def)


lemma category_metrics_Category: "Category (category_metrics c g) = c"
  by (simp add: category_metrics_def Let_def)

text \<open>
  Claim C1. For a category with \<open>n\<close> incidents, mean mapped severity \<open>s\<close> and mean
  resolution hours \<open>h\<close> (both rounded to 2 places) and \<open>r\<close> recurring incidents, the row
  of the category analysis has recurrence rate \<open>r / n * 100\<close> rounded to 1 place and risk
  score \<open>n * s * (1 + rate / 100) + h / 10\<close> rounded to 2 places. On the example table
  category A scores 40.2 and category B scores 2.1.
\<close>

theorem risk_score_formula:
  fixes row :: category_row and table :: "incident list"
  defines "g \<equiv> filter (\<lambda>i. category i = Category row) table"
  defines "n \<equiv> length g"
  defines "s \<equiv> map_option (round_dp 2) (mean_skipna (map (\<lambda>i. severity_weights (severity i)) g))"
  defines "h \<equiv> round_dp 2 (mean (map resolution_time_hours g))"
  defines "r \<equiv> length (filter (\<lambda>i. recurrence i = ''Yes'') g)"
  assumes "row \<in> set (category_analysis table)"
  shows "(Incident_Count row = n \<and> Avg_Severity_Score row = s \<and> Avg_Resolution_Hours row = h
      \<and> Recurring_Incidents row = r
      \<and> Recurrence_Rate row = round_dp 1 (of_nat r / of_nat n * 100)
      \<and> Risk_Score row =
          map_option (\<lambda>s. round_dp 2 (of_nat n * s * (1 + Recurrence_Rate row / 100) + h / 10)) s)
    \<and> map (\<lambda>x. (Category x, Incident_Count x, Avg_Severity_Score x, Recurring_Incidents x,
               Avg_Resolution_Hours x, Recurrence_Rate x, Risk_Score x))
          (category_analysis example_table) =
        [(''A'', 10, Some 3, 3, 12, 30, Some (402 / 10)), (''B'', 2, Some 1, 0, 1, 0, Some (21 / 10))]"
proof
  from category_analysis_row [OF assms(6)] obtain c where
    row: "row = category_metrics c (group_rows category c table)" by blast
  have c: "Category row = c" by (simp add: row category_metrics_Category)
  have g: "g = group_rows category c table" by (simp add: g_def c group_rows_def)
  show "Incident_Count row = n \<and> Avg_Severity_Score row = s \<and> Avg_Resolution_Hours row = h
      \<and> Recurring_Incidents row = r
      \<and> Recurrence_Rate row = round_dp 1 (of_nat r / of_nat n * 100)
      \<and> Risk_Score row =
          map_option (\<lambda>s. round_dp 2 (of_nat n * s * (1 + Recurrence_Rate row / 100) + h / 10)) s"
    unfolding n_def s_def h_def r_def g
    by (simp add: row category_metrics_def Let_def)
next
  show "map (\<lambda>x. (Category x, Incident_Count x, Avg_Severity_Score x, Recurring_Incidents x,
               Avg_Resolution_Hours x, Recurrence_Rate x, Risk_Score x))
          (category_analysis example_table) =
        [(''A'', 10, Some 3, 3, 12, 30, Some (402 / 10)), (''B'', 2, Some 1, 0, 1, 0, Some (21 / 10))]"
    by code_simp
qed

theorem risk_score_formula_witness:
  "hd (category_analysis example_table) \<in> set (category_analysis example_table)
   \<and> Incident_Count (hd (category_analysis example_table)) =
       length (filter (\<lambda>i. category i = Category (hd (category_analysis example_table)))
         example_table)"
proof -
  have h: "hd (category_analysis example_table) \<in> set (category_analysis example_table)"
    by code_simp
  from risk_score_formula [OF h] h show ?thesis by blast
qed



section \<open>The risk register\<close>

lemma register_rows_length: "length (register_rows k rec hr) = length hr"
  by (induction hr arbitrary: k) simp_all

lemma register_rows_nth:
  "i < length hr \<Longrightarrow> register_rows k rec hr ! i = risk_entry (k + i) rec (hr ! i)"
proof (induction hr arbitrary: k i)
  case Nil
  then show ?case by simp
next
  case (Cons row rows)
  then show ?case by (cases i) simp_all
qed

text \<open>
  Claim C3. The register entry of a high-risk row takes its risk level, likelihood,
  impact, mitigation strategy and status from the row's risk score, average resolution
  hours, recurrence rate and incident count alone: the score tiers at 50, 30 and 15 and
  the hour tiers at 40, 20 and 10 have inclusive lower bounds; the mitigation text joins
  with \<open>''; ''\<close> the clauses whose condition (rate over 50, hours over 30, count over 8)
  holds, and is the monitoring clause when none holds; the status asks for mitigation
  exactly for the levels Critical and High. A row of score 55, 45 hours, 60 percent and
  10 incidents is Critical, Very High, Severe and has all three clauses.
\<close>

theorem register_tiering:
  fixes self :: analyzer and hr :: "category_row list" and i :: nat and score :: rat
  defines "resolution \<equiv> Avg_Resolution_Hours (hr ! i)"
  defines "rate \<equiv> Recurrence_Rate (hr ! i)"
  defines "incidents \<equiv> Incident_Count (hr ! i)"
  defines "clauses \<equiv>
    (if 50 < rate then [''Conduct root cause analysis to address systemic issues''] else []) @
    (if 30 < resolution then [''Review and optimize incident response procedures''] else []) @
    (if 8 < incidents then [''Implement preventive controls to reduce incident frequency''] else [])"
  assumes "high_risk_categories (risk_summary self) = Some hr"
    and "i < length hr"
    and "Risk_Score (hr ! i) = Some score"
  shows "(\<exists>reg. generate_risk_register self = Inr (Some reg) \<and> length reg = length hr
      \<and> Risk_Level (reg ! i) =
          (if 50 \<le> score then ''Critical'' else if 30 \<le> score then ''High''
           else if 15 \<le> score then ''Medium'' else ''Low'')
      \<and> Likelihood (reg ! i) =
          (if 50 \<le> score then ''Very High'' else if 30 \<le> score then ''High''
           else if 15 \<le> score then ''Medium'' else ''Low'')
      \<and> Impact (reg ! i) =
          (if 40 \<le> resolution then ''Severe'' else if 20 \<le> resolution then ''Major''
           else if 10 \<le> resolution then ''Moderate'' else ''Minor'')
      \<and> Mitigation_Strategy (reg ! i) =
          (if clauses = [] then ''Monitor trends and maintain current controls''
           else join ''; '' clauses)
      \<and> Status (reg ! i) =
          (if Risk_Level (reg ! i) = ''Critical'' \<or> Risk_Level (reg ! i) = ''High''
           then ''Active - Mitigation Required'' else ''Active - Monitoring''))
    \<and> (Risk_Level (risk_entry 1 None example_row) = ''Critical''
      \<and> Likelihood (risk_entry 1 None example_row) = ''Very High''
      \<and> Impact (risk_entry 1 None example_row) = ''Severe''
      \<and> Mitigation_Strategy (risk_entry 1 None example_row) =
          ''Conduct root cause analysis to address systemic issues; '' @
          ''Review and optimize incident response procedures; '' @
          ''Implement preventive controls to reduce incident frequency'')"
proof
  let ?rec = "recurring_by_category (risk_summary self)"
  let ?reg = "register_rows 1 ?rec hr"
  have ne: "?reg \<noteq> []" using assms(6) register_rows_length [of 1 ?rec hr] by auto
  have gen: "generate_risk_register self = Inr (Some ?reg)"
    using ne by (simp add: generate_risk_register_def assms(5) Let_def)
  have nth: "?reg ! i = risk_entry (1 + i) ?rec (hr ! i)"
    using assms(6) by (rule register_rows_nth)
  have lvl: "Risk_Level (?reg ! i) =
          (if 50 \<le> score then ''Critical'' else if 30 \<le> score then ''High''
           else if 15 \<le> score then ''Medium'' else ''Low'')"
    unfolding nth by (simp add: risk_entry_def assms(7) ge_nan_def Let_def split_def)
  have lik: "Likelihood (?reg ! i) =
          (if 50 \<le> score then ''Very High'' else if 30 \<le> score then ''High''
           else if 15 \<le> score then ''Medium'' else ''Low'')"
    unfolding nth by (simp add: risk_entry_def assms(7) ge_nan_def Let_def split_def)
  have imp: "Impact (?reg ! i) =
          (if 40 \<le> resolution then ''Severe'' else if 20 \<le> resolution then ''Major''
           else if 10 \<le> resolution then ''Moderate'' else ''Minor'')"
    unfolding nth by (simp add: risk_entry_def resolution_def Let_def split_def)
  have mit: "Mitigation_Strategy (?reg ! i) =
          (if clauses = [] then ''Monitor trends and maintain current controls''
           else join ''; '' clauses)"
    unfolding nth clauses_def rate_def resolution_def incidents_def
    by (simp add: risk_entry_def Let_def split_def)
  have sta: "Status (?reg ! i) =
          (if Risk_Level (?reg ! i) = ''Critical'' \<or> Risk_Level (?reg ! i) = ''High''
           then ''Active - Mitigation Required'' else ''Active - Monitoring'')"
    unfolding nth by (simp add: risk_entry_def Let_def split_def)
  show "\<exists>reg. generate_risk_register self = Inr (Some reg) \<and> length reg = length hr
      \<and> Risk_Level (reg ! i) =
          (if 50 \<le> score then ''Critical'' else if 30 \<le> score then ''High''
           else if 15 \<le> score then ''Medium'' else ''Low'')
      \<and> Likelihood (reg ! i) =
          (if 50 \<le> score then ''Very High'' else if 30 \<le> score then ''High''
           else if 15 \<le> score then ''Medium'' else ''Low'')
      \<and> Impact (reg ! i) =
          (if 40 \<le> resolution then ''Severe'' else if 20 \<le> resolution then ''Major''
           else if 10 \<le> resolution then ''Moderate'' else ''Minor'')
      \<and> Mitigation_Strategy (reg ! i) =
          (if clauses = [] then ''Monitor trends and maintain current controls''
           else join ''; '' clauses)
      \<and> Status (reg ! i) =
          (if Risk_Level (reg ! i) = ''Critical'' \<or> Risk_Level (reg ! i) = ''High''
           then ''Active - Mitigation Required'' else ''Active - Monitoring'')"
    using gen register_rows_length [of 1 ?rec hr] lvl lik imp mit sta by blast
next
  show "Risk_Level (risk_entry 1 None example_row) = ''Critical''
      \<and> Likelihood (risk_entry 1 None example_row) = ''Very High''
      \<and> Impact (risk_entry 1 None example_row) = ''Severe''
      \<and> Mitigation_Strategy (risk_entry 1 None example_row) =
          ''Conduct root cause analysis to address systemic issues; '' @
          ''Review and optimize incident response procedures; '' @
          ''Implement preventive controls to reduce incident frequency''"
    by code_simp
qed

theorem register_tiering_witness:
  "high_risk_categories (risk_summary example_state) = Some [example_row]
   \<and> 0 < length [example_row]
   \<and> Risk_Score ([example_row] ! 0) = Some 55
   \<and> (\<exists>reg. generate_risk_register example_state = Inr (Some reg)
        \<and> Risk_Level (reg ! 0) = ''Critical''
        \<and> Status (reg ! 0) = ''Active - Mitigation Required'')"
proof -
  have h1: "high_risk_categories (risk_summary example_state) = Some [example_row]"
    by (simp add: example_state_def)
  have h2: "0 < length [example_row]" by simp
  have h3: "Risk_Score ([example_row] ! 0) = Some 55" by (simp add: example_row_def)
  from register_tiering [OF h1 h2 h3] obtain reg where
    "generate_risk_register example_state = Inr (Some reg)"
    "Risk_Level (reg ! 0) = ''Critical''"
    "Status (reg ! 0) = ''Active - Mitigation Required''"
    by auto
  with h1 h2 h3 show ?thesis by blast
qed

text \<open>
  Claim C5, as stated, fails: on a fresh analyzer \<open>generate_risk_register\<close> raises
  nothing and returns Python's \<open>None\<close>.
\<close>

theorem register_before_scoring_counterexample:
  "generate_risk_register init = Inr None \<and> \<not> isl (generate_risk_register init)"
  by (simp add: generate_risk_register_def init_def)

text \<open>
  Claim C5, amended. When no high-risk table is stored in the result cache, as on an
  analyzer that has only loaded its table, \<open>generate_risk_register\<close> returns \<open>None\<close>
  without raising and builds no register; it returns \<open>None\<close> in no other case.
\<close>

theorem register_without_high_risk:
  "(high_risk_categories (risk_summary self) = None \<longrightarrow>
      generate_risk_register self = Inr None)
   \<and> (generate_risk_register self = Inr None \<longrightarrow>
      high_risk_categories (risk_summary self) = None)
   \<and> generate_risk_register (load_data table init) = Inr None"
proof (intro conjI impI)
  assume "high_risk_categories (risk_summary self) = None"
  then show "generate_risk_register self = Inr None"
    by (simp add: generate_risk_register_def)
next
  assume ret: "generate_risk_register self = Inr None"
  show "high_risk_categories (risk_summary self) = None"
  proof (cases "high_risk_categories (risk_summary self)")
    case None
    then show ?thesis .
  next
    case (Some high_risk)
    then have "generate_risk_register self \<noteq> Inr None"
      by (simp add: generate_risk_register_def Let_def)
    with ret show ?thesis by simp
  qed
next
  have "high_risk_categories (risk_summary (load_data table init)) = None"
    by (simp add: load_data_def init_def)
  then show "generate_risk_register (load_data table init) = Inr None"
    by (simp add: generate_risk_register_def)
qed

theorem register_without_high_risk_witness:
  "high_risk_categories (risk_summary (load_data example_table init)) = None
   \<and> generate_risk_register (load_data example_table init) = Inr None"
proof -
  have h: "high_risk_categories (risk_summary (load_data example_table init)) = None"
    by (simp add: load_data_def init_def)
  have "generate_risk_register (load_data example_table init) = Inr None"
    by (rule register_without_high_risk [THEN conjunct1, THEN mp, OF h])
  with h show ?thesis by (rule conjI)
qed

text \<open>
  Claim C4, as stated, fails: a table with a severity outside the weight table goes
  through the scoring without an error, and the category's mean severity is the mean of
  the mapped severities only.
\<close>

theorem unmapped_severity_counterexample:
  "severity_weights (severity (last unmapped_table)) = None
   \<and> \<not> isl (identify_high_risk_categories argsort_stable 75 (load_data unmapped_table init))
   \<and> map (\<lambda>x. (Category x, Incident_Count x, Avg_Severity_Score x, Risk_Score x))
       (category_analysis unmapped_table) = [(''A'', 2, Some 3, Some 7)]"
  by code_simp

lemma map_filter_id_map: "List.map_filter id (map f xs) = List.map_filter f xs"
  by (induction xs) (simp_all add: List.map_filter_def)

lemma quantile_returns: "0 \<le> q \<Longrightarrow> q \<le> 1 \<Longrightarrow> \<exists>t. quantile col q = Inr t"
  by (simp add: quantile_def Let_def)

lemma identify_returns:
  assumes "df self = Some table" and "0 \<le> p" and "p \<le> 100"
  shows "\<exists>hr st. identify_high_risk_categories argsort p self = Inr (hr, st)"
proof -
  have "0 \<le> p / 100" "p / 100 \<le> 1" using assms(2,3) by simp_all
  then obtain t where "quantile (map Risk_Score (category_analysis table)) (p / 100) = Inr t"
    using quantile_returns by blast
  then show ?thesis by (simp add: identify_high_risk_categories_def assms(1) Let_def)
qed

text \<open>
  Claim C4, amended. With a table loaded and a percentile between 0 and 100 the scoring
  never raises, whatever the severities are; every record counts in its category's
  incident count, and the mean severity of a category is the rounded mean of the weights
  of its records with a mapped severity, NaN when it has none.
\<close>

theorem unmapped_severity_skipped:
  assumes "df self = Some table" and "0 \<le> p" and "p \<le> 100"
  shows "(\<exists>hr st. identify_high_risk_categories argsort p self = Inr (hr, st))
    \<and> (\<forall>row \<in> set (category_analysis table).
         Incident_Count row = length (filter (\<lambda>i. category i = Category row) table)
         \<and> Avg_Severity_Score row =
             (let mapped = List.map_filter (\<lambda>i. severity_weights (severity i))
                    (filter (\<lambda>i. category i = Category row) table)
              in if mapped = [] then None else Some (round_dp 2 (mean mapped))))"
proof
  show "\<exists>hr st. identify_high_risk_categories argsort p self = Inr (hr, st)"
    using assms by (rule identify_returns)
next
  show "\<forall>row \<in> set (category_analysis table).
         Incident_Count row = length (filter (\<lambda>i. category i = Category row) table)
         \<and> Avg_Severity_Score row =
             (let mapped = List.map_filter (\<lambda>i. severity_weights (severity i))
                    (filter (\<lambda>i. category i = Category row) table)
              in if mapped = [] then None else Some (round_dp 2 (mean mapped)))"
  proof
    fix row assume "row \<in> set (category_analysis table)"
    from category_analysis_row [OF this] obtain c where
      row: "row = category_metrics c (group_rows category c table)" by blast
    have c: "Category row = c" by (simp add: row category_metrics_Category)
    show "Incident_Count row = length (filter (\<lambda>i. category i = Category row) table)
         \<and> Avg_Severity_Score row =
             (let mapped = List.map_filter (\<lambda>i. severity_weights (severity i))
                    (filter (\<lambda>i. category i = Category row) table)
              in if mapped = [] then None else Some (round_dp 2 (mean mapped)))"
      unfolding c
      by (simp add: row category_metrics_def mean_skipna_def map_filter_id_map
          group_rows_def Let_def)
  qed
qed

theorem unmapped_severity_skipped_witness:
  "df (load_data unmapped_table init) = Some unmapped_table \<and> (0::rat) \<le> 75 \<and> (75::rat) \<le> 100
   \<and> (\<exists>hr st. identify_high_risk_categories argsort_stable 75 (load_data unmapped_table init)
         = Inr (hr, st))"
proof -
  have h1: "df (load_data unmapped_table init) = Some unmapped_table"
    by (simp add: load_data_def)
  have h2: "(0::rat) \<le> 75" and h3: "(75::rat) \<le> 100" by simp_all
  from unmapped_severity_skipped [OF h1 h2 h3, of argsort_stable] h1 show ?thesis by simp
qed

section \<open>Resolution metrics by severity and recurring issues\<close>








text \<open>
  Claim C10. \<open>detect_recurring_issues\<close> returns one empty frame, and stores nothing, when
  no record has recurrence \<open>''Yes''\<close>; when a record has it, the function returns a pair
  of frames, the recurrence metrics by category and at most ten root causes, and stores
  both.
\<close>

theorem recurring_result_shape:
  assumes "df self = Some table"
  shows "((\<forall>i \<in> set table. recurrence i \<noteq> ''Yes'') \<longrightarrow>
        detect_recurring_issues argsort self = Inr (Empty_Frame, self))
    \<and> ((\<exists>i \<in> set table. recurrence i = ''Yes'') \<longrightarrow>
        (\<exists>cr rc st. detect_recurring_issues argsort self = Inr (Frames cr rc, st)
            \<and> recurring_by_category (risk_summary st) = Some cr
            \<and> top_recurring_root_causes (risk_summary st) = Some rc
            \<and> length rc \<le> 10))"
proof (intro conjI impI)
  assume "\<forall>i \<in> set table. recurrence i \<noteq> ''Yes''"
  then have "filter (\<lambda>r. recurrence r = ''Yes'') table = []"
    by (simp add: filter_empty_conv)
  then show "detect_recurring_issues argsort self = Inr (Empty_Frame, self)"
    by (simp add: detect_recurring_issues_def assms)
next
  assume "\<exists>i \<in> set table. recurrence i = ''Yes''"
  then have ne: "filter (\<lambda>r. recurrence r = ''Yes'') table \<noteq> []"
    by (simp add: filter_empty_conv)
  show "\<exists>cr rc st. detect_recurring_issues argsort self = Inr (Frames cr rc, st)
            \<and> recurring_by_category (risk_summary st) = Some cr
            \<and> top_recurring_root_causes (risk_summary st) = Some rc
            \<and> length rc \<le> 10"
    using ne by (simp add: detect_recurring_issues_def assms Let_def)
qed

theorem recurring_result_shape_witness:
  "df (load_data tied_table init) = Some tied_table
   \<and> df (load_data example_table init) = Some example_table
   \<and> (\<exists>i \<in> set example_table. recurrence i = ''Yes'')
   \<and> detect_recurring_issues argsort_stable (load_data tied_table init)
       = Inr (Empty_Frame, load_data tied_table init)
   \<and> (\<exists>cr rc st. detect_recurring_issues argsort_stable (load_data example_table init)
         = Inr (Frames cr rc, st)
       \<and> recurring_by_category (risk_summary st) = Some cr
       \<and> top_recurring_root_causes (risk_summary st) = Some rc
       \<and> length rc \<le> 10)"
proof -
  have h1: "df (load_data tied_table init) = Some tied_table" by (simp add: load_data_def)
  have h2: "df (load_data example_table init) = Some example_table" by (simp add: load_data_def)
  have c1: "\<forall>i \<in> set tied_table. recurrence i \<noteq> ''Yes''" by code_simp
  have c2: "\<exists>i \<in> set example_table. recurrence i = ''Yes''" by code_simp
  have r1: "detect_recurring_issues argsort_stable (load_data tied_table init)
       = Inr (Empty_Frame, load_data tied_table init)"
    by (rule recurring_result_shape [OF h1, of argsort_stable, THEN conjunct1, THEN mp, OF c1])
  have r2: "\<exists>cr rc st. detect_recurring_issues argsort_stable (load_data example_table init)
         = Inr (Frames cr rc, st)
       \<and> recurring_by_category (risk_summary st) = Some cr
       \<and> top_recurring_root_causes (risk_summary st) = Some rc
       \<and> length rc \<le> 10"
    by (rule recurring_result_shape [OF h2, of argsort_stable, THEN conjunct2, THEN mp, OF c2])
  show ?thesis by (intro conjI; (rule h1 h2 c2 r1 r2))
qed

section \<open>Sorting under the contract of argsort\<close>

lemma argsort_of_pairs:
  assumes "mset zs = mset (zip xs [0..<length xs])"
  shows "mset (map snd (sort_key fst zs)) = mset [0..<length xs]"
    and "sorted (map (\<lambda>i. xs ! i) (map snd (sort_key fst zs)))"
proof -
  have snd_zip: "map snd (zip xs [0..<length xs]) = [0..<length xs]" by simp
  have "mset (map snd (sort_key fst zs)) = image_mset snd (mset zs)" by simp
  also have "\<dots> = mset (map snd (zip xs [0..<length xs]))" by (simp only: assms mset_map)
  also have "\<dots> = mset [0..<length xs]" by (simp only: snd_zip)
  finally show "mset (map snd (sort_key fst zs)) = mset [0..<length xs]" .
  have "set zs = set (zip xs [0..<length xs])" using assms by (rule mset_eq_setD)
  then have pair: "\<forall>z \<in> set (sort_key fst zs). xs ! snd z = fst z"
    by (auto simp: in_set_zip)
  have "map (\<lambda>i. xs ! i) (map snd (sort_key fst zs)) = map fst (sort_key fst zs)"
    using pair by simp
  then show "sorted (map (\<lambda>i. xs ! i) (map snd (sort_key fst zs)))"
    by (simp only: sorted_sort_key)
qed

lemma argsort_stable_contract: "argsort_contract argsort_stable"
  unfolding argsort_contract_def argsort_stable_def
  by (intro allI conjI argsort_of_pairs) simp_all

lemma map_Some_map_filter: "map Some (List.map_filter id items) = filter (\<lambda>x. x \<noteq> None) items"
  by (induction items) (auto simp: List.map_filter_def)

lemma nth_filter_positions:
  "map (\<lambda>i. items ! i) (filter (\<lambda>i. P (items ! i)) [0..<length items]) = filter P items"
proof -
  have "map (\<lambda>i. items ! i) (filter (\<lambda>i. P (items ! i)) [0..<length items]) =
      filter P (map (\<lambda>i. items ! i) [0..<length items])"
    by (simp add: filter_map comp_def)
  then show ?thesis by (simp only: map_nth)
qed

lemma permuted_positions:
  assumes "mset p = mset [0..<length ids]"
  shows "mset (map (\<lambda>j. ids ! j) p) = mset ids"
proof -
  have "mset (map (\<lambda>j. ids ! j) p) = image_mset (\<lambda>j. ids ! j) (mset p)" by simp
  also have "\<dots> = mset (map (\<lambda>j. ids ! j) [0..<length ids])" by (simp only: assms mset_map)
  also have "\<dots> = mset ids" by (simp only: map_nth)
  finally show ?thesis .
qed

text \<open>One call of \<open>nargsort_desc\<close>: a permutation of the positions, its keys in descending order, NaN last.\<close>

lemma nargsort_desc_facts:
  fixes items :: "rat option list"
  assumes "argsort_contract argsort"
  defines "xs \<equiv> rev (List.map_filter id items)"
  defines "ids \<equiv> rev (filter (\<lambda>i. items ! i \<noteq> None) [0..<length items])"
  shows "mset (nargsort_desc argsort items) = mset [0..<length items]"
    and "map (\<lambda>i. items ! i) (nargsort_desc argsort items) =
          rev (map Some (map (\<lambda>j. xs ! j) (argsort xs))) @ filter (\<lambda>x. x = None) items"
    and "sorted (map (\<lambda>j. xs ! j) (argsort xs))"
proof -
  let ?p = "argsort xs"
  have keys: "map (\<lambda>i. items ! i) ids = map Some xs"
    unfolding ids_def xs_def
    by (simp only: rev_map [symmetric] nth_filter_positions [where P = "\<lambda>x. x \<noteq> None"] map_Some_map_filter)
  then have len: "length ids = length xs" by (metis length_map)
  have perm: "mset ?p = mset [0..<length xs]" and srt: "sorted (map (\<lambda>j. xs ! j) ?p)"
    using assms(1) by (simp_all add: argsort_contract_def)
  show "sorted (map (\<lambda>j. xs ! j) (argsort xs))" by (rule srt)
  have inr: "\<forall>j \<in> set ?p. j < length ids"
    using mset_eq_setD [OF perm] len by auto
  have nar: "nargsort_desc argsort items =
      rev (map (\<lambda>j. ids ! j) ?p) @ filter (\<lambda>i. items ! i = None) [0..<length items]"
    by (simp add: nargsort_desc_def Let_def xs_def ids_def)
  have "mset (map (\<lambda>j. ids ! j) ?p) = mset ids"
    using perm len by (intro permuted_positions) simp
  then have "mset (nargsort_desc argsort items) =
      mset (filter (\<lambda>i. items ! i \<noteq> None) [0..<length items])
      + mset (filter (\<lambda>i. items ! i = None) [0..<length items])"
    by (simp add: nar ids_def)
  also have "\<dots> = mset [0..<length items]"
    by (simp only: mset_filter) (metis (mono_tags, lifting) multiset_partition filter_mset_cong)
  finally show "mset (nargsort_desc argsort items) = mset [0..<length items]" .
  have "map (\<lambda>i. items ! i) (map (\<lambda>j. ids ! j) ?p) = map (\<lambda>j. Some (xs ! j)) ?p"
  proof (simp only: map_map comp_def, rule map_cong [OF refl])
    fix j assume "j \<in> set ?p"
    then have j: "j < length ids" using inr by blast
    have "items ! (ids ! j) = map (\<lambda>i. items ! i) ids ! j" using j by simp
    also have "\<dots> = Some (xs ! j)" using j len by (simp add: keys)
    finally show "items ! (ids ! j) = Some (xs ! j)" .
  qed
  moreover have "map (\<lambda>i. items ! i) (filter (\<lambda>i. items ! i = None) [0..<length items]) =
      filter (\<lambda>x. x = None) items"
    by (rule nth_filter_positions)
  ultimately show "map (\<lambda>i. items ! i) (nargsort_desc argsort items) =
          rev (map Some (map (\<lambda>j. xs ! j) (argsort xs))) @ filter (\<lambda>x. x = None) items"
    by (simp add: nar rev_map comp_def)
qed

lemma sort_values_desc_mset:
  assumes "argsort_contract argsort"
  shows "mset (sort_values_desc argsort col rows) = mset rows"
proof -
  let ?ix = "nargsort_desc argsort (map col rows)"
  have "mset ?ix = mset [0..<length rows]"
    using nargsort_desc_facts(1) [OF assms, of "map col rows"] by simp
  then have "mset (map (\<lambda>i. rows ! i) ?ix) = mset (map (\<lambda>i. rows ! i) [0..<length rows])"
    by (simp only: mset_map)
  then show ?thesis by (simp only: sort_values_desc_def map_nth)
qed

lemma sort_values_desc_set:
  "argsort_contract argsort \<Longrightarrow> set (sort_values_desc argsort col rows) = set rows"
  by (rule mset_eq_setD) (rule sort_values_desc_mset)

lemma sort_values_desc_sorted:
  assumes "argsort_contract argsort" and "\<forall>r \<in> set rows. col r \<noteq> None"
  shows "sorted_wrt (\<lambda>a b. ge_nan (col a) (col b)) (sort_values_desc argsort col rows)"
proof -
  let ?items = "map col rows"
  let ?ix = "nargsort_desc argsort ?items"
  let ?xs = "rev (List.map_filter id ?items)"
  let ?s = "map (\<lambda>j. ?xs ! j) (argsort ?xs)"
  have perm: "mset ?ix = mset [0..<length rows]"
    using nargsort_desc_facts(1) [OF assms(1), of ?items] by simp
  have inr: "\<forall>i \<in> set ?ix. i < length rows"
    using mset_eq_setD [OF perm] by auto
  have nonan: "filter (\<lambda>x. x = None) ?items = []"
    using assms(2) by (auto simp: filter_empty_conv)
  have keys: "map (\<lambda>i. ?items ! i) ?ix = rev (map Some ?s)"
    using nargsort_desc_facts(2) [OF assms(1), of ?items] nonan by simp
  have srt: "sorted ?s" using nargsort_desc_facts(3) [OF assms(1), of ?items] .
  have "map col (sort_values_desc argsort col rows) = map (\<lambda>i. ?items ! i) ?ix"
    using inr by (simp add: sort_values_desc_def)
  then have cols: "map col (sort_values_desc argsort col rows) = rev (map Some ?s)"
    by (simp only: keys)
  have "sorted_wrt (\<lambda>a b. ge_nan a b) (rev (map Some ?s))"
    using srt by (simp add: sorted_wrt_rev sorted_wrt_map ge_nan_def)
  then have "sorted_wrt (\<lambda>a b. ge_nan a b) (map col (sort_values_desc argsort col rows))"
    by (simp only: cols)
  then show ?thesis by (simp only: sorted_wrt_map)
qed

lemma quantile_le_some_value:
  assumes "quantile col q = Inr (Some t)"
  shows "\<exists>x. Some x \<in> set col \<and> t \<le> x"
proof -
  define vals where "vals = sort (List.map_filter id col)"
  define n where "n = length vals"
  define h where "h = q * of_nat (n - 1)"
  define lo where "lo = nat \<lfloor>h\<rfloor>"
  define hi where "hi = min (lo + 1) (n - 1)"
  have unf: "quantile col q =
      (if q < 0 \<or> 1 < q then Inl ValueError
       else if n = 0 then Inr None
       else Inr (Some (vals ! lo + (vals ! hi - vals ! lo) * (h - of_nat lo))))"
    by (simp only: quantile_def Let_def vals_def n_def h_def lo_def hi_def)
  have q: "0 \<le> q" "q \<le> 1" and n: "n \<noteq> 0"
    and t: "t = vals ! lo + (vals ! hi - vals ! lo) * (h - of_nat lo)"
    using assms unfolding unf by (auto split: if_splits)
  have h0: "0 \<le> h" using q by (simp add: h_def)
  have "h \<le> 1 * of_nat (n - 1)" unfolding h_def using q by (intro mult_right_mono) simp_all
  then have hn: "h \<le> of_nat (n - 1)" by simp
  have "\<lfloor>h\<rfloor> \<le> int (n - 1)" using hn by (simp add: floor_le_iff)
  then have lo_n: "lo \<le> n - 1" using h0 by (simp add: lo_def)
  have lo_le: "of_nat lo \<le> h" using h0 by (simp add: lo_def)
  have "h < of_int \<lfloor>h\<rfloor> + 1" by linarith
  then have g1: "h - of_nat lo < 1" using h0 by (simp add: lo_def)
  have lohi: "lo \<le> hi" using lo_n by (simp add: hi_def)
  have hin: "hi < n" using n by (simp add: hi_def)
  have "sorted vals" by (simp add: vals_def)
  then have mono: "vals ! lo \<le> vals ! hi"
    using lohi hin by (simp add: sorted_nth_mono n_def)
  have "(vals ! hi - vals ! lo) * (h - of_nat lo) \<le> (vals ! hi - vals ! lo) * 1"
    using mono g1 by (intro mult_left_mono) simp_all
  then have "t \<le> vals ! hi" by (simp add: t)
  moreover have "vals ! hi \<in> set vals" using hin by (simp add: n_def)
  then have "Some (vals ! hi) \<in> set col"
    by (auto simp: vals_def List.map_filter_def)
  ultimately show ?thesis by blast
qed

section \<open>The high-risk set\<close>

lemma identify_unfold:
  assumes "df self = Some table"
    and "quantile (map Risk_Score (category_analysis table)) (p / 100) = Inr thr"
  shows "identify_high_risk_categories argsort p self =
    Inr (sort_values_desc argsort Risk_Score
           (filter (\<lambda>r. ge_nan (Risk_Score r) thr) (category_analysis table)),
         self\<lparr>risk_summary := (risk_summary self)\<lparr>high_risk_categories :=
           Some (sort_values_desc argsort Risk_Score
             (filter (\<lambda>r. ge_nan (Risk_Score r) thr) (category_analysis table)))\<rparr>\<rparr>)"
  by (simp add: identify_high_risk_categories_def assms Let_def)

lemma category_analysis_distinct: "distinct (map Category (category_analysis table))"
proof -
  have "map Category (category_analysis table) = group_keys category table"
    by (simp add: category_analysis_def comp_def category_metrics_Category)
  then show ?thesis by (simp add: group_keys_def)
qed

lemma percentile_in_range:
  assumes "0 \<le> p" and "p \<le> 100"
  shows "0 \<le> p / 100" and "p / 100 \<le> (1::rat)"
  using assms by simp_all

text \<open>
  Claim C2. For a loaded table and a percentile \<open>p\<close> between 0 and 100,
  \<open>identify_high_risk_categories\<close> returns exactly the rows of the category analysis
  whose risk score is at least the \<open>p\<close>-th percentile of the scores (interpolated linearly
  between order statistics, the comparison inclusive), each category once, and stores
  them; the default percentile is 75. For eight categories of scores 1 to 8 the 75th
  percentile is 6.25 and the categories of scores 7 and 8 qualify.
\<close>

theorem high_risk_set:
  assumes "argsort_contract argsort" and "df self = Some table" and "0 \<le> p" and "p \<le> 100"
  shows "(\<exists>hr st thr. identify_high_risk_categories argsort p self = Inr (hr, st)
      \<and> quantile (map Risk_Score (category_analysis table)) (p / 100) = Inr thr
      \<and> set hr = {row \<in> set (category_analysis table). ge_nan (Risk_Score row) thr}
      \<and> distinct (map Category hr)
      \<and> high_risk_categories (risk_summary st) = Some hr)
    \<and> default_threshold_percentile = 75
    \<and> quantile (map Risk_Score (category_analysis eight_table)) (75 / 100) = Inr (Some (25 / 4))
    \<and> map Category (filter (\<lambda>r. ge_nan (Risk_Score r) (Some (25 / 4)))
         (category_analysis eight_table)) = [''C7'', ''C8'']"
proof (intro conjI)
  obtain thr where thr: "quantile (map Risk_Score (category_analysis table)) (p / 100) = Inr thr"
    using quantile_returns [OF percentile_in_range [OF assms(3,4)]] by blast
  let ?sel = "filter (\<lambda>r. ge_nan (Risk_Score r) thr) (category_analysis table)"
  let ?hr = "sort_values_desc argsort Risk_Score ?sel"
  let ?st = "self\<lparr>risk_summary := (risk_summary self)\<lparr>high_risk_categories := Some ?hr\<rparr>\<rparr>"
  have ret: "identify_high_risk_categories argsort p self = Inr (?hr, ?st)"
    using assms(2) thr by (rule identify_unfold)
  have perm: "mset ?hr = mset ?sel" using assms(1) by (rule sort_values_desc_mset)
  have rows: "set ?hr = {row \<in> set (category_analysis table). ge_nan (Risk_Score row) thr}"
    using mset_eq_setD [OF perm] by simp
  have "distinct (map Category ?sel)"
    using category_analysis_distinct [of table] by (rule distinct_map_filter)
  moreover have "mset (map Category ?hr) = mset (map Category ?sel)"
    by (simp only: mset_map perm)
  ultimately have dist: "distinct (map Category ?hr)"
    using mset_eq_imp_distinct_iff by blast
  have stored: "high_risk_categories (risk_summary ?st) = Some ?hr" by simp
  show "\<exists>hr st thr. identify_high_risk_categories argsort p self = Inr (hr, st)
      \<and> quantile (map Risk_Score (category_analysis table)) (p / 100) = Inr thr
      \<and> set hr = {row \<in> set (category_analysis table). ge_nan (Risk_Score row) thr}
      \<and> distinct (map Category hr)
      \<and> high_risk_categories (risk_summary st) = Some hr"
    by (intro exI conjI; (rule ret thr rows dist stored))
next
  show "default_threshold_percentile = 75" by (simp add: default_threshold_percentile_def)
next
  show "quantile (map Risk_Score (category_analysis eight_table)) (75 / 100) = Inr (Some (25 / 4))"
    by code_simp
next
  show "map Category (filter (\<lambda>r. ge_nan (Risk_Score r) (Some (25 / 4)))
         (category_analysis eight_table)) = [''C7'', ''C8'']"
    by code_simp
qed

theorem high_risk_set_witness:
  "argsort_contract argsort_stable
   \<and> df (load_data eight_table init) = Some eight_table \<and> (0::rat) \<le> 75 \<and> (75::rat) \<le> 100
   \<and> (\<exists>hr st thr.
        identify_high_risk_categories argsort_stable 75 (load_data eight_table init) = Inr (hr, st)
        \<and> set hr = {row \<in> set (category_analysis eight_table). ge_nan (Risk_Score row) thr})"
proof -
  have h2: "df (load_data eight_table init) = Some eight_table" by (simp add: load_data_def)
  have h3: "(0::rat) \<le> 75" and h4: "(75::rat) \<le> 100" by simp_all
  from high_risk_set [OF argsort_stable_contract h2 h3 h4] obtain hr st thr where
    a: "identify_high_risk_categories argsort_stable 75 (load_data eight_table init) = Inr (hr, st)"
    and b: "set hr = {row \<in> set (category_analysis eight_table). ge_nan (Risk_Score row) thr}"
    by (elim exE conjE)
  show ?thesis by (intro exI conjI; (rule argsort_stable_contract h2 h3 h4 a b))
qed

lemma mapped_severity_scored:
  assumes "i \<in> set table" and "severity_weights (severity i) \<noteq> None"
  shows "\<exists>row \<in> set (category_analysis table). Risk_Score row \<noteq> None"
proof -
  let ?g = "group_rows category (category i) table"
  have ig: "i \<in> set ?g" using assms(1) by (simp add: group_rows_def)
  then have "List.map_filter (\<lambda>r. severity_weights (severity r)) ?g \<noteq> []"
    using assms(2) by (auto simp: List.map_filter_def filter_empty_conv)
  then have "Risk_Score (category_metrics (category i) ?g) \<noteq> None"
    by (simp add: category_metrics_def mean_skipna_def map_filter_id_map Let_def)
  moreover have "category_metrics (category i) ?g \<in> set (category_analysis table)"
    using assms(1) by (auto simp: category_analysis_def group_keys_def)
  ultimately show ?thesis by blast
qed

lemma quantile_some:
  assumes "0 \<le> q" and "q \<le> 1" and "Some x \<in> set col"
  shows "\<exists>t. quantile col q = Inr (Some t)"
proof -
  have "x \<in> set (List.map_filter id col)"
    using assms(3) by (force simp: List.map_filter_def)
  then have mem: "x \<in> set (sort (List.map_filter id col))" by simp
  have "sort (List.map_filter id col) \<noteq> []"
  proof
    assume "sort (List.map_filter id col) = []"
    then have "set (sort (List.map_filter id col)) = {}" by (simp only: list.set)
    with mem show False by (simp only: empty_iff)
  qed
  then show ?thesis using assms(1,2) by (simp add: quantile_def Let_def)
qed

text \<open>
  Claim C9, as stated, fails: a table whose only category has no mapped severity has a
  NaN score, a NaN threshold and an empty high-risk set.
\<close>

theorem high_risk_nonempty_counterexample:
  "group_keys category unscored_table = [''A'']
   \<and> (case identify_high_risk_categories argsort_stable 75 (load_data unscored_table init) of
        Inl e \<Rightarrow> None | Inr (hr, st) \<Rightarrow> Some hr) = Some []"
  by code_simp

text \<open>
  Claim C9, amended. For a table in which at least one record has a severity of the
  weight table, and a percentile between 0 and 100, the high-risk set is not empty: every
  category whose score is the greatest of the scores that are not NaN is in it.
\<close>

theorem high_risk_nonempty:
  assumes "argsort_contract argsort" and "df self = Some table" and "0 \<le> p" and "p \<le> 100"
    and "\<exists>i \<in> set table. severity_weights (severity i) \<noteq> None"
  shows "\<exists>hr st. identify_high_risk_categories argsort p self = Inr (hr, st) \<and> hr \<noteq> []
    \<and> (\<forall>row \<in> set (category_analysis table).
          Risk_Score row \<noteq> None
          \<and> (\<forall>other \<in> set (category_analysis table).
                Risk_Score other = None \<or> ge_nan (Risk_Score row) (Risk_Score other))
          \<longrightarrow> row \<in> set hr)"
proof -
  let ?A = "category_analysis table"
  from assms(5) mapped_severity_scored obtain r0 x0 where
    r0: "r0 \<in> set ?A" "Risk_Score r0 = Some x0" by fastforce
  then have "Some x0 \<in> set (map Risk_Score ?A)" by force
  from quantile_some [OF percentile_in_range [OF assms(3,4)] this] obtain t where
    thr: "quantile (map Risk_Score ?A) (p / 100) = Inr (Some t)" by blast
  let ?sel = "filter (\<lambda>r. ge_nan (Risk_Score r) (Some t)) ?A"
  let ?hr = "sort_values_desc argsort Risk_Score ?sel"
  let ?st = "self\<lparr>risk_summary := (risk_summary self)\<lparr>high_risk_categories := Some ?hr\<rparr>\<rparr>"
  have ret: "identify_high_risk_categories argsort p self = Inr (?hr, ?st)"
    using assms(2) thr by (rule identify_unfold)
  have rows: "set ?hr = set ?sel" using assms(1) by (rule sort_values_desc_set)
  from quantile_le_some_value [OF thr] obtain x where
    x: "Some x \<in> set (map Risk_Score ?A)" "t \<le> x" by blast
  then obtain r1 where r1: "r1 \<in> set ?A" "Risk_Score r1 = Some x" by force
  then have "r1 \<in> set ?hr" unfolding rows using x(2) by (simp add: ge_nan_def)
  then have ne: "?hr \<noteq> []" by auto
  have top: "\<forall>row \<in> set ?A.
          Risk_Score row \<noteq> None
          \<and> (\<forall>other \<in> set ?A.
                Risk_Score other = None \<or> ge_nan (Risk_Score row) (Risk_Score other))
          \<longrightarrow> row \<in> set ?hr"
  proof (intro ballI impI)
    fix row assume row: "row \<in> set ?A"
      and mx: "Risk_Score row \<noteq> None
          \<and> (\<forall>other \<in> set ?A.
                Risk_Score other = None \<or> ge_nan (Risk_Score row) (Risk_Score other))"
    then obtain m where m: "Risk_Score row = Some m" by auto
    have "ge_nan (Risk_Score row) (Risk_Score r1)" using mx r1 by auto
    then have "x \<le> m" by (simp add: m r1(2) ge_nan_def)
    then have "t \<le> m" using x(2) by simp
    then show "row \<in> set ?hr" unfolding rows using row by (simp add: m ge_nan_def)
  qed
  show ?thesis by (intro exI conjI; (rule ret ne top))
qed

theorem high_risk_nonempty_witness:
  "argsort_contract argsort_stable
   \<and> df (load_data example_table init) = Some example_table
   \<and> (0::rat) \<le> 75 \<and> (75::rat) \<le> 100
   \<and> (\<exists>i \<in> set example_table. severity_weights (severity i) \<noteq> None)
   \<and> (\<exists>hr st. identify_high_risk_categories argsort_stable 75 (load_data example_table init)
         = Inr (hr, st) \<and> hr \<noteq> [])"
proof -
  have h2: "df (load_data example_table init) = Some example_table" by (simp add: load_data_def)
  have h3: "(0::rat) \<le> 75" and h4: "(75::rat) \<le> 100" by simp_all
  have h5: "\<exists>i \<in> set example_table. severity_weights (severity i) \<noteq> None" by code_simp
  from high_risk_nonempty [OF argsort_stable_contract h2 h3 h4 h5] obtain hr st where
    a: "identify_high_risk_categories argsort_stable 75 (load_data example_table init)
         = Inr (hr, st)"
    and b: "hr \<noteq> []"
    by (elim exE conjE)
  show ?thesis by (intro exI conjI; (rule argsort_stable_contract h2 h3 h4 h5 a b))
qed

text \<open>
  Claim C6, as stated, fails: the code names no tie-break, and on eighteen categories
  of equal score numpy's quicksort partitions and returns them out of the order of their
  labels.
\<close>

theorem tie_order_counterexample:
  "map Risk_Score (category_analysis eighteen_tied_table) = replicate 18 (Some (11 / 10))
   \<and> (case identify_high_risk_categories npy_aquicksort 75
             (load_data eighteen_tied_table init) of
        Inl e \<Rightarrow> None | Inr (hr, st) \<Rightarrow> Some (map Category hr)) =
       Some [''A'', ''B'', ''Q'', ''P'', ''O'', ''N'', ''M'', ''L'', ''K'', ''J'', ''I'', ''H'',
             ''G'', ''F'', ''E'', ''D'', ''C'', ''R'']"
proof (intro conjI)
  show "map Risk_Score (category_analysis eighteen_tied_table) = replicate 18 (Some (11 / 10))"
    by code_simp
  show "(case identify_high_risk_categories npy_aquicksort 75
             (load_data eighteen_tied_table init) of
        Inl e \<Rightarrow> None | Inr (hr, st) \<Rightarrow> Some (map Category hr)) =
       Some [''A'', ''B'', ''Q'', ''P'', ''O'', ''N'', ''M'', ''L'', ''K'', ''J'', ''I'', ''H'',
             ''G'', ''F'', ''E'', ''D'', ''C'', ''R'']"
    by code_simp
qed

text \<open>
  Claim C6, amended. The high-risk rows are returned in descending order of risk score;
  rows of equal score are in the order the library's sort leaves them in, which is not
  always the ascending order of their labels.
\<close>

theorem high_risk_sorted_descending:
  assumes "argsort_contract argsort" and "df self = Some table" and "0 \<le> p" and "p \<le> 100"
  shows "\<exists>hr st. identify_high_risk_categories argsort p self = Inr (hr, st)
    \<and> sorted_wrt (\<lambda>a b. ge_nan (Risk_Score a) (Risk_Score b)) hr"
proof -
  obtain thr where thr: "quantile (map Risk_Score (category_analysis table)) (p / 100) = Inr thr"
    using quantile_returns [OF percentile_in_range [OF assms(3,4)]] by blast
  let ?sel = "filter (\<lambda>r. ge_nan (Risk_Score r) thr) (category_analysis table)"
  let ?hr = "sort_values_desc argsort Risk_Score ?sel"
  let ?st = "self\<lparr>risk_summary := (risk_summary self)\<lparr>high_risk_categories := Some ?hr\<rparr>\<rparr>"
  have ret: "identify_high_risk_categories argsort p self = Inr (?hr, ?st)"
    using assms(2) thr by (rule identify_unfold)
  have "\<forall>r \<in> set ?sel. Risk_Score r \<noteq> None"
    by (auto simp: ge_nan_def split: option.splits)
  with assms(1) have srt: "sorted_wrt (\<lambda>a b. ge_nan (Risk_Score a) (Risk_Score b)) ?hr"
    by (rule sort_values_desc_sorted)
  show ?thesis by (intro exI conjI; (rule ret srt))
qed

theorem high_risk_sorted_descending_witness:
  "argsort_contract argsort_stable
   \<and> df (load_data eight_table init) = Some eight_table \<and> (0::rat) \<le> 0 \<and> (0::rat) \<le> 100
   \<and> (\<exists>hr st. identify_high_risk_categories argsort_stable 0 (load_data eight_table init)
         = Inr (hr, st)
       \<and> sorted_wrt (\<lambda>a b. ge_nan (Risk_Score a) (Risk_Score b)) hr)
   \<and> (case identify_high_risk_categories argsort_stable 0 (load_data eight_table init) of
        Inl e \<Rightarrow> None | Inr (hr, st) \<Rightarrow> Some (map Category hr)) =
       Some [''C8'', ''C7'', ''C6'', ''C5'', ''C4'', ''C3'', ''C2'', ''C1'']"
proof -
  have h2: "df (load_data eight_table init) = Some eight_table" by (simp add: load_data_def)
  have h3: "(0::rat) \<le> 0" and h4: "(0::rat) \<le> 100" by simp_all
  from high_risk_sorted_descending [OF argsort_stable_contract h2 h3 h4] obtain hr st where
    a: "identify_high_risk_categories argsort_stable 0 (load_data eight_table init)
         = Inr (hr, st)"
    and b: "sorted_wrt (\<lambda>a b. ge_nan (Risk_Score a) (Risk_Score b)) hr"
    by (elim exE conjE)
  have c: "(case identify_high_risk_categories argsort_stable 0 (load_data eight_table init) of
        Inl e \<Rightarrow> None | Inr (hr, st) \<Rightarrow> Some (map Category hr)) =
       Some [''C8'', ''C7'', ''C6'', ''C5'', ''C4'', ''C3'', ''C2'', ''C1'']"
    by code_simp
  show ?thesis by (intro exI conjI; (rule argsort_stable_contract h2 h3 h4 a b c))
qed

end
